theory Spec2Isabelle
  imports Main "HOL-Library.Word"
begin

section \<open>The wrapped engine\<close>

text \<open>
  \<^verbatim>\<open>sqlitexx.h\<close> is a header-only wrapper over the C interface of the database engine.
  The engine itself is not part of the repository, so it is a parameter of every
  definition below: a record holding one function for each C entry point the wrapper
  calls, over an arbitrary type \<open>'e\<close> of engine states. Entry points that advance or
  change the engine return the new engine state; the column readers and the parameter
  lookup are observers of the state. Nothing is assumed about what the functions return.

  A pointer is \<open>nat option\<close>, \<open>None\<close> being the null pointer. A C \<^verbatim>\<open>int\<close> handed over
  by the engine is an \<open>int\<close>; \<^verbatim>\<open>unsigned\<close> is \<open>32 word\<close> and \<^verbatim>\<open>size_t\<close> is \<open>64 word\<close>,
  so that the conversions the code performs are visible. A \<^verbatim>\<open>const char*\<close> result is
  the content of the buffer it points to (\<open>None\<close> for a null pointer); a
  \<^verbatim>\<open>std::string\<close> is a \<open>string\<close>, whose characters are bytes.
\<close>

type_synonym sqlite3_ptr = "nat option"
type_synonym sqlite3_stmt_ptr = "nat option"

typedecl double

text \<open>The result codes and storage classes, with the values the engine's header fixes.\<close>

definition SQLITE_OK :: int where "SQLITE_OK = 0"
definition SQLITE_ERROR :: int where "SQLITE_ERROR = 1"
definition SQLITE_BUSY :: int where "SQLITE_BUSY = 5"
definition SQLITE_MISUSE :: int where "SQLITE_MISUSE = 21"
definition SQLITE_RANGE :: int where "SQLITE_RANGE = 25"
definition SQLITE_ROW :: int where "SQLITE_ROW = 100"
definition SQLITE_DONE :: int where "SQLITE_DONE = 101"

definition SQLITE_INTEGER :: int where "SQLITE_INTEGER = 1"
definition SQLITE_FLOAT :: int where "SQLITE_FLOAT = 2"
definition SQLITE_TEXT :: int where "SQLITE_TEXT = 3"
definition SQLITE_BLOB :: int where "SQLITE_BLOB = 4"
definition SQLITE_NULL :: int where "SQLITE_NULL = 5"

record 'e sqlite3 =
  sqlite3_prepare_v2 :: "sqlite3_ptr \<Rightarrow> string \<Rightarrow> 'e \<Rightarrow> (int \<times> sqlite3_stmt_ptr) \<times> 'e"
  sqlite3_step :: "sqlite3_stmt_ptr \<Rightarrow> 'e \<Rightarrow> int \<times> 'e"
  sqlite3_finalize :: "sqlite3_stmt_ptr \<Rightarrow> 'e \<Rightarrow> int \<times> 'e"
  sqlite3_column_count :: "sqlite3_stmt_ptr \<Rightarrow> 'e \<Rightarrow> int"
  sqlite3_column_type :: "sqlite3_stmt_ptr \<Rightarrow> int \<Rightarrow> 'e \<Rightarrow> int"
  sqlite3_column_text :: "sqlite3_stmt_ptr \<Rightarrow> int \<Rightarrow> 'e \<Rightarrow> string option"
  sqlite3_column_bytes :: "sqlite3_stmt_ptr \<Rightarrow> int \<Rightarrow> 'e \<Rightarrow> int"
  sqlite3_bind_parameter_index :: "sqlite3_stmt_ptr \<Rightarrow> string \<Rightarrow> 'e \<Rightarrow> int"
  sqlite3_bind_text :: "sqlite3_stmt_ptr \<Rightarrow> int \<Rightarrow> string \<Rightarrow> int \<Rightarrow> 'e \<Rightarrow> int \<times> 'e"
  sqlite3_bind_int :: "sqlite3_stmt_ptr \<Rightarrow> int \<Rightarrow> int \<Rightarrow> 'e \<Rightarrow> int \<times> 'e"
  sqlite3_bind_int64 :: "sqlite3_stmt_ptr \<Rightarrow> int \<Rightarrow> int \<Rightarrow> 'e \<Rightarrow> int \<times> 'e"
  sqlite3_bind_null :: "sqlite3_stmt_ptr \<Rightarrow> int \<Rightarrow> 'e \<Rightarrow> int \<times> 'e"
  sqlite3_bind_double :: "sqlite3_stmt_ptr \<Rightarrow> int \<Rightarrow> double \<Rightarrow> 'e \<Rightarrow> int \<times> 'e"

section \<open>Strings and C strings\<close>

text \<open>
  \<^verbatim>\<open>s.c_str()\<close> points to the bytes of \<open>s\<close> followed by a zero byte. A C function
  that takes the pointer alone reads up to the first zero byte: \<open>c_str\<close> is what it
  sees. \<^verbatim>\<open>std::string{data}\<close> reads a buffer in the same way and \<^verbatim>\<open>std::string{data, len}\<close>
  reads \<open>len\<close> bytes; the behaviour of either is undefined when it leaves the
  buffer, which is the result \<open>None\<close>.
\<close>

definition NUL :: char where
  "NUL = CHR 0x00"

definition c_str :: "string \<Rightarrow> string" where
  "c_str s = takeWhile (\<lambda>c. c \<noteq> NUL) s"

definition c_buffer :: "string \<Rightarrow> string" where
  "c_buffer s = s @ [NUL]"

definition string_of_cstr :: "string \<Rightarrow> string option" where
  "string_of_cstr data = (if NUL \<in> set data then Some (takeWhile (\<lambda>c. c \<noteq> NUL) data) else None)"

definition string_of_bytes :: "string \<Rightarrow> 64 word \<Rightarrow> string option" where
  "string_of_bytes data len = (if unat len \<le> length data then Some (take (unat len) data) else None)"

text \<open>What \<^verbatim>\<open>operator<<\<close> writes for an \<^verbatim>\<open>unsigned\<close>: its decimal digits.\<close>

fun digits :: "nat \<Rightarrow> nat \<Rightarrow> string" where
  "digits 0 n = []"
| "digits (Suc fuel) n =
     (if n < 10 then [char_of (48 + n)]
      else digits fuel (n div 10) @ [char_of (48 + n mod 10)])"

definition write_unsigned :: "32 word \<Rightarrow> string" where
  "write_unsigned x = digits 10 (unat x)"

section \<open>Error\<close>

text \<open>
  Every failure of the wrapper is one exception class, \<^verbatim>\<open>Error\<close>, carrying the engine's
  result code and a message. A function that can throw returns \<open>Error + 'a\<close>, together
  with the state as the throw leaves it. The message is what \<^verbatim>\<open>what()\<close> returns, a C
  string: a message that is put together from a string of the caller ends at the first
  zero byte of that string.
\<close>

datatype Error = Error (code: int) (what: string)

section \<open>Statement\<close>

text \<open>
  A name cannot end in an underscore here: the members \<^verbatim>\<open>stmt_\<close>, \<^verbatim>\<open>index_\<close>,
  \<^verbatim>\<open>db_\<close> and \<^verbatim>\<open>done_\<close> are the fields \<open>the_stmt\<close>, \<open>the_index\<close>, \<open>the_db\<close> and
  \<open>the_done\<close> (\<open>value_stmt\<close> in a \<^verbatim>\<open>Value\<close>), after the iterator's \<^verbatim>\<open>the_end\<close>.
\<close>

record Statement =
  the_stmt :: sqlite3_stmt_ptr

text \<open>The arguments of the overloads of \<^verbatim>\<open>bind(unsigned pos, ...)\<close>.\<close>

datatype bind_value =
  BindText string
| BindBool bool
| BindInt32 int
| BindInt64 int
| BindNull
| BindDouble double

definition bind_result :: "string \<Rightarrow> int \<times> 'e \<Rightarrow> (Error + unit) \<times> 'e" where
  "bind_result msg r =
     (case r of (res, w') \<Rightarrow>
        if res \<noteq> SQLITE_OK then (Inl (Error res msg), w') else (Inr (), w'))"

fun bind :: "'e sqlite3 \<Rightarrow> Statement \<Rightarrow> 32 word \<Rightarrow> bind_value \<Rightarrow> 'e \<Rightarrow> (Error + unit) \<times> 'e" where
  "bind eng st pos (BindText v) w =
     bind_result ''bind failed''
       (sqlite3_bind_text eng (the_stmt st) (sint pos) (c_buffer v)
          (sint (word_of_nat (length v) :: 32 word)) w)"
| "bind eng st pos (BindBool x) w =
     bind_result ''bind failed''
       (sqlite3_bind_int eng (the_stmt st) (sint pos) (if x then 1 else 0) w)"
| "bind eng st pos (BindInt32 x) w =
     bind_result ''bind failed'' (sqlite3_bind_int eng (the_stmt st) (sint pos) x w)"
| "bind eng st pos (BindInt64 x) w =
     bind_result ''bind failed'' (sqlite3_bind_int64 eng (the_stmt st) (sint pos) x w)"
| "bind eng st pos BindNull w =
     bind_result ''bind failed: '' (sqlite3_bind_null eng (the_stmt st) (sint pos) w)"
| "bind eng st pos (BindDouble x) w =
     bind_result ''bind failed'' (sqlite3_bind_double eng (the_stmt st) (sint pos) x w)"

definition bind_name ::
  "'e sqlite3 \<Rightarrow> Statement \<Rightarrow> string \<Rightarrow> bind_value \<Rightarrow> 'e \<Rightarrow> (Error + unit) \<times> 'e" where
  "bind_name eng st argname x w =
     (let n = sqlite3_bind_parameter_index eng (the_stmt st) (c_str argname) w in
      if n = 0 then
        (Inl (Error SQLITE_ERROR
               (c_str (''unknown parameter name '' @ [CHR 0x27] @ argname @ [CHR 0x27]))), w)
      else bind eng st (word_of_int n) x w)"

text \<open>
  \<^verbatim>\<open>exec()\<close>. The outer \<open>option\<close> is \<open>None\<close> where \<^verbatim>\<open>std::string{data}\<close> would read
  past the engine's buffer.
\<close>

definition exec :: "'e sqlite3 \<Rightarrow> Statement \<Rightarrow> 'e \<Rightarrow> (Error + string) option \<times> 'e" where
  "exec eng st w =
     (case sqlite3_step eng (the_stmt st) w of (res, w') \<Rightarrow>
        if res = SQLITE_DONE then (Some (Inr []), w')
        else if res = SQLITE_ROW then
          (if sqlite3_column_count eng (the_stmt st) w' \<noteq> 0 then
             (case sqlite3_column_text eng (the_stmt st) 0 w' of
                None \<Rightarrow> (Some (Inr []), w')
              | Some data \<Rightarrow> (map_option Inr (string_of_cstr data), w'))
           else (Some (Inr []), w'))
        else (Some (Inl (Error res ''execution failed'')), w'))"

record Value =
  value_stmt :: sqlite3_stmt_ptr
  the_index :: "32 word"

definition type :: "'e sqlite3 \<Rightarrow> Value \<Rightarrow> 'e \<Rightarrow> int" where
  "type eng v w = sqlite3_column_type eng (value_stmt v) (sint (the_index v)) w"

definition is_text :: "'e sqlite3 \<Rightarrow> Value \<Rightarrow> 'e \<Rightarrow> bool" where
  "is_text eng v w = (type eng v w = SQLITE_TEXT)"

definition is_blob :: "'e sqlite3 \<Rightarrow> Value \<Rightarrow> 'e \<Rightarrow> bool" where
  "is_blob eng v w = (type eng v w = SQLITE_BLOB)"

definition as_text :: "'e sqlite3 \<Rightarrow> Value \<Rightarrow> 'e \<Rightarrow> string option" where
  "as_text eng v w =
     (case sqlite3_column_text eng (value_stmt v) (sint (the_index v)) w of
        None \<Rightarrow> Some []
      | Some data \<Rightarrow>
          if is_text eng v w \<or> is_blob eng v w then
            string_of_bytes data
              (word_of_int (sqlite3_column_bytes eng (value_stmt v) (sint (the_index v)) w))
          else string_of_cstr data)"

text \<open>\<^verbatim>\<open>operator[]\<close> and \<^verbatim>\<open>size()\<close>.\<close>

definition subscript :: "'e sqlite3 \<Rightarrow> Statement \<Rightarrow> 32 word \<Rightarrow> 'e \<Rightarrow> Error + Value" where
  "subscript eng st idx w =
     (if the_stmt st = None \<or> sint idx \<ge> sqlite3_column_count eng (the_stmt st) w then
        Inl (Error SQLITE_ERROR (''column index '' @ write_unsigned idx @ '' is out of range''))
      else Inr \<lparr>value_stmt = the_stmt st, the_index = idx\<rparr>)"

definition size_stmt :: "'e sqlite3 \<Rightarrow> Statement \<Rightarrow> 'e \<Rightarrow> 64 word" where
  "size_stmt eng st w = word_of_int (sqlite3_column_count eng (the_stmt st) w)"

definition step :: "'e sqlite3 \<Rightarrow> Statement \<Rightarrow> 'e \<Rightarrow> (Error + bool) \<times> 'e" where
  "step eng st w =
     (case sqlite3_step eng (the_stmt st) w of (res, w') \<Rightarrow>
        if res = SQLITE_ROW then (Inr True, w')
        else if res = SQLITE_DONE then (Inr False, w')
        else (Inl (Error res ''execution failed''), w'))"


subsection \<open>The iterator\<close>

record iterator =
  stmt :: Statement
  the_end :: bool

definition begin_iterator :: "Statement \<Rightarrow> iterator" where
  "begin_iterator st = \<lparr>stmt = st, the_end = False\<rparr>"

definition end_iterator :: "Statement \<Rightarrow> iterator" where
  "end_iterator st = \<lparr>stmt = st, the_end = True\<rparr>"

definition iterator_deref :: "iterator \<Rightarrow> Statement" where
  "iterator_deref it = stmt it"

definition iterator_incr :: "'e sqlite3 \<Rightarrow> iterator \<Rightarrow> 'e \<Rightarrow> (Error + iterator) \<times> 'e" where
  "iterator_incr eng it w =
     (case step eng (stmt it) w of
        (Inl err, w') \<Rightarrow> (Inl err, w')
      | (Inr has_row, w') \<Rightarrow> (Inr (if has_row then it else it\<lparr>the_end := True\<rparr>), w'))"

definition iterator_eq :: "iterator \<Rightarrow> iterator \<Rightarrow> bool" where
  "iterator_eq this it = (the_end it \<and> the_end this)"

definition iterator_neq :: "iterator \<Rightarrow> iterator \<Rightarrow> bool" where
  "iterator_neq this it = (\<not> iterator_eq this it)"

text \<open>
  The range-based \<^verbatim>\<open>for (auto& row : q)\<close> of the unit test is, by the language's
  definition, \<^verbatim>\<open>for (auto b = q.begin(), e = q.end(); b != e; ++b) { auto& row = *b; ... }\<close>.
  The body reads the statement it is given in the engine state of that moment, so what
  the loop yields is the list of these views, one for each run of the body, together
  with how the loop ended and the last engine state. The engine may deliver rows
  forever: the loop takes fuel, one unit for each test of \<^verbatim>\<open>b != e\<close>, and is \<open>None\<close>
  when the fuel runs out.
\<close>

type_synonym 'e view = "Statement \<times> 'e"

definition visit ::
  "'e view \<Rightarrow> (Error + unit) \<times> 'e view list \<times> 'e \<Rightarrow> (Error + unit) \<times> 'e view list \<times> 'e" where
  "visit v r = (case r of (res, vs, w') \<Rightarrow> (res, v # vs, w'))"

fun for_loop ::
  "nat \<Rightarrow> 'e sqlite3 \<Rightarrow> iterator \<Rightarrow> iterator \<Rightarrow> 'e \<Rightarrow> ((Error + unit) \<times> 'e view list \<times> 'e) option" where
  "for_loop 0 eng b e w = None"
| "for_loop (Suc fuel) eng b e w =
     (if iterator_neq b e then
        (case iterator_incr eng b w of
           (Inl err, w') \<Rightarrow> Some (Inl err, [(iterator_deref b, w)], w')
         | (Inr b', w') \<Rightarrow> map_option (visit (iterator_deref b, w)) (for_loop fuel eng b' e w'))
      else Some (Inr (), [], w))"

definition for_range ::
  "nat \<Rightarrow> 'e sqlite3 \<Rightarrow> Statement \<Rightarrow> 'e \<Rightarrow> ((Error + unit) \<times> 'e view list \<times> 'e) option" where
  "for_range fuel eng st w = for_loop fuel eng (begin_iterator st) (end_iterator st) w"

text \<open>
  The sequence the specification compares the iteration with: \<^verbatim>\<open>step()\<close> called
  repeatedly, the statement read after each \<^verbatim>\<open>true\<close>, until the first \<^verbatim>\<open>false\<close>. Fuel
  is one unit for each call.
\<close>

fun spec_step_rows ::
  "nat \<Rightarrow> 'e sqlite3 \<Rightarrow> Statement \<Rightarrow> 'e \<Rightarrow> ((Error + unit) \<times> 'e view list \<times> 'e) option" where
  "spec_step_rows 0 eng st w = None"
| "spec_step_rows (Suc fuel) eng st w =
     (case step eng st w of
        (Inl err, w') \<Rightarrow> Some (Inl err, [], w')
      | (Inr has_row, w') \<Rightarrow>
          if has_row then map_option (visit (st, w')) (spec_step_rows fuel eng st w')
          else Some (Inr (), [], w'))"

section \<open>Transaction\<close>

record Transaction =
  the_db :: sqlite3_ptr
  the_done :: bool

text \<open>The private \<^verbatim>\<open>Transaction::exec(sql)\<close>, which returns a result code.\<close>

definition Transaction_exec :: "'e sqlite3 \<Rightarrow> Transaction \<Rightarrow> string \<Rightarrow> 'e \<Rightarrow> int \<times> 'e" where
  "Transaction_exec eng t sql w =
     (case sqlite3_prepare_v2 eng (the_db t) sql w of ((res, st), w1) \<Rightarrow>
        if res \<noteq> SQLITE_OK then (res, w1)
        else (case sqlite3_step eng st w1 of (res', w2) \<Rightarrow>
                (case sqlite3_finalize eng st w2 of (_, w3) \<Rightarrow>
                   if res' \<noteq> SQLITE_DONE then (res', w3) else (SQLITE_OK, w3))))"

text \<open>
  \<^verbatim>\<open>try_commit\<close> repeats for as long as the engine answers \<^verbatim>\<open>SQLITE_BUSY\<close>, which may be
  forever: the result is \<open>None\<close> exactly when the loop does not return.
\<close>

partial_function (option) try_commit ::
  "'e sqlite3 \<Rightarrow> bool \<Rightarrow> Transaction \<Rightarrow> 'e \<Rightarrow> ((Error + bool) \<times> Transaction \<times> 'e) option" where
  "try_commit eng exc t w =
     (case Transaction_exec eng t ''COMMIT;'' w of (res, w') \<Rightarrow>
        if res = SQLITE_OK then Some (Inr True, t\<lparr>the_done := True\<rparr>, w')
        else if res \<noteq> SQLITE_BUSY then
          (if exc then Some (Inl (Error res ''commit failed''), t, w')
           else Some (Inr False, t, w'))
        else try_commit eng exc t w')"

definition discard :: "(Error + bool) \<times> Transaction \<times> 'e \<Rightarrow> (Error + unit) \<times> Transaction \<times> 'e" where
  "discard r = (case r of (res, t, w) \<Rightarrow> (map_sum id (\<lambda>_. ()) res, t, w))"

definition commit ::
  "'e sqlite3 \<Rightarrow> Transaction \<Rightarrow> 'e \<Rightarrow> ((Error + unit) \<times> Transaction \<times> 'e) option" where
  "commit eng t w = map_option discard (try_commit eng True t w)"

text \<open>The destructor \<^verbatim>\<open>~Transaction()\<close>.\<close>

definition destroy ::
  "'e sqlite3 \<Rightarrow> Transaction \<Rightarrow> 'e \<Rightarrow> ((Error + unit) \<times> Transaction \<times> 'e) option" where
  "destroy eng t w = map_option discard (try_commit eng False t w)"

definition rollback ::
  "'e sqlite3 \<Rightarrow> Transaction \<Rightarrow> 'e \<Rightarrow> (Error + unit) \<times> Transaction \<times> 'e" where
  "rollback eng t w =
     (case Transaction_exec eng t ''ROLLBACK;'' w of (res, w') \<Rightarrow>
        if res \<noteq> SQLITE_OK then (Inl (Error res ''rollback failed''), t, w')
        else (Inr (), t\<lparr>the_done := True\<rparr>, w'))"

text \<open>The constructor \<^verbatim>\<open>Transaction(sqlite3* db)\<close>: no object exists when it throws.\<close>

definition Transaction_begin :: "'e sqlite3 \<Rightarrow> sqlite3_ptr \<Rightarrow> 'e \<Rightarrow> (Error + Transaction) \<times> 'e" where
  "Transaction_begin eng db w =
     (case Transaction_exec eng \<lparr>the_db = db, the_done = False\<rparr> ''BEGIN TRANSACTION;'' w of
        (res, w') \<Rightarrow>
          if res \<noteq> SQLITE_OK then (Inl (Error res ''can't begin transaction''), w')
          else (Inr \<lparr>the_db = db, the_done = False\<rparr>, w'))"

text \<open>
  Move assignment \<^verbatim>\<open>this = std::move(t)\<close>, returning the destination, then the source.
  The move constructor runs the same statements on a destination holding the default
  member initialisers.
\<close>

definition take_over :: "Transaction \<Rightarrow> Transaction \<Rightarrow> Transaction \<times> Transaction" where
  "take_over this t = (this\<lparr>the_db := the_db t, the_done := the_done t\<rparr>, t\<lparr>the_db := None\<rparr>)"

definition move_assign ::
  "'e sqlite3 \<Rightarrow> Transaction \<Rightarrow> Transaction \<Rightarrow> 'e
     \<Rightarrow> ((Error + unit) \<times> (Transaction \<times> Transaction) \<times> 'e) option" where
  "move_assign eng this t w =
     (if the_db this \<noteq> None \<and> \<not> the_done this then
        (case commit eng this w of
           None \<Rightarrow> None
         | Some (Inl err, this', w') \<Rightarrow> Some (Inl err, (this', t), w')
         | Some (Inr _, this', w') \<Rightarrow> Some (Inr (), take_over this' t, w'))
      else Some (Inr (), take_over this t, w))"

definition move_construct ::
  "'e sqlite3 \<Rightarrow> Transaction \<Rightarrow> 'e \<Rightarrow> ((Error + unit) \<times> (Transaction \<times> Transaction) \<times> 'e) option" where
  "move_construct eng t w = move_assign eng \<lparr>the_db = None, the_done = False\<rparr> t w"


text \<open>
  To say how often \<^verbatim>\<open>COMMIT\<close> has been issued: the engine state after \<open>k\<close> runs of
  \<^verbatim>\<open>exec("COMMIT;")\<close> on the transaction \<open>t\<close>, starting in \<open>w\<close>.
\<close>

definition commit_attempts :: "'e sqlite3 \<Rightarrow> Transaction \<Rightarrow> nat \<Rightarrow> 'e \<Rightarrow> 'e" where
  "commit_attempts eng t k w = ((\<lambda>u. snd (Transaction_exec eng t ''COMMIT;'' u)) ^^ k) w"

section \<open>A test engine\<close>

text \<open>
  The theorems below hold for every engine. To run them on concrete inputs there is a
  small engine with the behaviour the real one has where the wrapper can see it. It has
  one connection, \<open>Some 0\<close>, and one prepared statement of the caller, \<open>Some 1\<close>, with
  its declared column count, the rows it has still to deliver, the row it is positioned
  on, its parameter names by position and the values bound so far. A statement that
  \<^verbatim>\<open>sqlite3_prepare_v2\<close> compiles is \<open>Some 2\<close>; stepping it answers with the next of
  \<open>toy_replies\<close>. Every call of \<^verbatim>\<open>sqlite3_prepare_v2\<close> is logged with the connection
  it was given. Text and blob buffers end in a zero byte that the reported length does
  not count, a null cell has no buffer, and no floating-point values are stored.
\<close>

datatype cell = CNull | CInteger int | CText string | CBlob string

record toy =
  toy_columns :: int
  toy_pending :: "cell list list"
  toy_current :: "cell list option"
  toy_params :: "string list"
  toy_bound :: "(int \<times> cell) list"
  toy_replies :: "int list"
  toy_log :: "(sqlite3_ptr \<times> string) list"

definition toy_prepare :: "sqlite3_ptr \<Rightarrow> string \<Rightarrow> toy \<Rightarrow> (int \<times> sqlite3_stmt_ptr) \<times> toy" where
  "toy_prepare db sql w =
     (if db = Some 0 then ((SQLITE_OK, Some 2), w\<lparr>toy_log := toy_log w @ [(db, sql)]\<rparr>)
      else ((SQLITE_MISUSE, None), w\<lparr>toy_log := toy_log w @ [(db, sql)]\<rparr>))"

definition toy_step :: "sqlite3_stmt_ptr \<Rightarrow> toy \<Rightarrow> int \<times> toy" where
  "toy_step p w =
     (if p = Some 1 then
        (case toy_pending w of
           [] \<Rightarrow> (SQLITE_DONE, w\<lparr>toy_current := None\<rparr>)
         | r # rs \<Rightarrow> (SQLITE_ROW, w\<lparr>toy_pending := rs, toy_current := Some r\<rparr>))
      else if p = Some 2 then
        (case toy_replies w of
           [] \<Rightarrow> (SQLITE_DONE, w)
         | r # rs \<Rightarrow> (r, w\<lparr>toy_replies := rs\<rparr>))
      else (SQLITE_MISUSE, w))"

definition toy_finalize :: "sqlite3_stmt_ptr \<Rightarrow> toy \<Rightarrow> int \<times> toy" where
  "toy_finalize p w = (SQLITE_OK, w)"

definition toy_column_count :: "sqlite3_stmt_ptr \<Rightarrow> toy \<Rightarrow> int" where
  "toy_column_count p w = (if p = Some 1 then toy_columns w else 0)"

definition toy_cell :: "sqlite3_stmt_ptr \<Rightarrow> int \<Rightarrow> toy \<Rightarrow> cell" where
  "toy_cell p i w =
     (if p = Some 1 then
        (case toy_current w of
           None \<Rightarrow> CNull
         | Some r \<Rightarrow> if 0 \<le> i \<and> nat i < length r then r ! nat i else CNull)
      else CNull)"

fun cell_type :: "cell \<Rightarrow> int" where
  "cell_type CNull = SQLITE_NULL"
| "cell_type (CInteger n) = SQLITE_INTEGER"
| "cell_type (CText s) = SQLITE_TEXT"
| "cell_type (CBlob s) = SQLITE_BLOB"

fun cell_text :: "cell \<Rightarrow> string option" where
  "cell_text CNull = None"
| "cell_text (CInteger n) =
     Some ((if n < 0 then ''-'' else []) @ digits 20 (nat \<bar>n\<bar>) @ [NUL])"
| "cell_text (CText s) = Some (s @ [NUL])"
| "cell_text (CBlob s) = Some (s @ [NUL])"

fun cell_bytes :: "cell \<Rightarrow> int" where
  "cell_bytes CNull = 0"
| "cell_bytes (CInteger n) = int (length ((if n < 0 then ''-'' else []) @ digits 20 (nat \<bar>n\<bar>)))"
| "cell_bytes (CText s) = int (length s)"
| "cell_bytes (CBlob s) = int (length s)"

fun toy_index :: "string \<Rightarrow> string list \<Rightarrow> int \<Rightarrow> int" where
  "toy_index name [] k = 0"
| "toy_index name (p # ps) k = (if p = name then k else toy_index name ps (k + 1))"

definition toy_bind :: "sqlite3_stmt_ptr \<Rightarrow> int \<Rightarrow> cell \<Rightarrow> toy \<Rightarrow> int \<times> toy" where
  "toy_bind p pos c w =
     (if p = Some 1 then
        (if 1 \<le> pos \<and> pos \<le> int (length (toy_params w))
         then (SQLITE_OK, w\<lparr>toy_bound := toy_bound w @ [(pos, c)]\<rparr>)
         else (SQLITE_RANGE, w))
      else (SQLITE_MISUSE, w))"

definition toy_engine :: "toy sqlite3" where
  "toy_engine =
     \<lparr>sqlite3_prepare_v2 = toy_prepare,
      sqlite3_step = toy_step,
      sqlite3_finalize = toy_finalize,
      sqlite3_column_count = toy_column_count,
      sqlite3_column_type = (\<lambda>p i w. cell_type (toy_cell p i w)),
      sqlite3_column_text = (\<lambda>p i w. cell_text (toy_cell p i w)),
      sqlite3_column_bytes = (\<lambda>p i w. cell_bytes (toy_cell p i w)),
      sqlite3_bind_parameter_index = (\<lambda>p name w. if p = Some 1 then toy_index name (toy_params w) 1 else 0),
      sqlite3_bind_text = (\<lambda>p pos buf n w. toy_bind p pos (CText (take (nat n) buf)) w),
      sqlite3_bind_int = (\<lambda>p pos x w. toy_bind p pos (CInteger x) w),
      sqlite3_bind_int64 = (\<lambda>p pos x w. toy_bind p pos (CInteger x) w),
      sqlite3_bind_null = (\<lambda>p pos w. toy_bind p pos CNull w),
      sqlite3_bind_double = (\<lambda>p pos x w. (SQLITE_ERROR, w))\<rparr>"

definition toy_empty :: toy where
  "toy_empty =
     \<lparr>toy_columns = 0, toy_pending = [], toy_current = None, toy_params = [],
      toy_bound = [], toy_replies = [], toy_log = []\<rparr>"

definition toy_stmt :: Statement where
  "toy_stmt = \<lparr>the_stmt = Some 1\<rparr>"

definition toy_transaction :: Transaction where
  "toy_transaction = \<lparr>the_db = Some 0, the_done = False\<rparr>"

text \<open>The same engine, except that every step is answered \<^verbatim>\<open>SQLITE_BUSY\<close>.\<close>

definition busy_engine :: "toy sqlite3" where
  "busy_engine = toy_engine\<lparr>sqlite3_step := (\<lambda>p w. (SQLITE_BUSY, w))\<rparr>"

section \<open>Basic facts\<close>

lemmas sqlite_codes =
  SQLITE_OK_def SQLITE_ERROR_def SQLITE_BUSY_def SQLITE_MISUSE_def SQLITE_RANGE_def
  SQLITE_ROW_def SQLITE_DONE_def
  SQLITE_INTEGER_def SQLITE_FLOAT_def SQLITE_TEXT_def SQLITE_BLOB_def SQLITE_NULL_def

lemmas toy_defs =
  toy_engine_def toy_prepare_def toy_step_def toy_finalize_def toy_column_count_def
  toy_cell_def toy_bind_def toy_empty_def toy_stmt_def toy_transaction_def

text \<open>The integer conversions are the identity on the values that fit.\<close>

lemma sint_small: "unat (idx :: 32 word) < 2 ^ 31 \<Longrightarrow> sint idx = int (unat idx)"
proof -
  assume a: "unat idx < 2 ^ 31"
  have "int (unat idx) < 2 ^ 31" using a by (simp add: nat_int_comparison(2))
  moreover have "- (2 ^ 31) \<le> int (unat idx)" by (rule order_trans [of _ 0]) simp_all
  ultimately have "signed_take_bit 31 (int (unat idx)) = int (unat idx)"
    by (rule signed_take_bit_int_eq_self[rotated])
  then show ?thesis by (simp add: sint_uint)
qed

lemma sint_of_int_small:
  "- (2 ^ 31) \<le> n \<Longrightarrow> n < 2 ^ 31 \<Longrightarrow> sint (word_of_int n :: 32 word) = n"
  by (simp add: sint_sbintrunc' signed_take_bit_int_eq_self)

lemma unat_of_int_small:
  "0 \<le> n \<Longrightarrow> n < 2 ^ 31 \<Longrightarrow> unat (word_of_int n :: 64 word) = nat n"
  by (simp add: unsigned_of_int take_bit_int_eq_self)

lemma c_str_plain: "NUL \<notin> set s \<Longrightarrow> c_str s = s"
  by (induction s) (auto simp add: c_str_def)

lemma takeWhile_stops_early:
  "x \<in> set xs \<Longrightarrow> \<not> P x \<Longrightarrow> length (takeWhile P xs) < length xs"
  by (induction xs) auto

section \<open>Statement: column access\<close>

text \<open>
  Claim C4, as the specification states it: column access raises an error when the
  index is at least the column count and also when no row is positioned. The code
  tests the handle and the index only. On the test engine, a statement with one column
  and no rows: \<^verbatim>\<open>step()\<close> returns false, no row is positioned, and column 0 is
  handed out all the same.
\<close>

theorem subscript_counterexample:
  "step toy_engine toy_stmt (toy_empty\<lparr>toy_columns := 1\<rparr>)
     = (Inr False, toy_empty\<lparr>toy_columns := 1\<rparr>)
   \<and> toy_current (toy_empty\<lparr>toy_columns := 1\<rparr>) = None
   \<and> subscript toy_engine toy_stmt 0 (toy_empty\<lparr>toy_columns := 1\<rparr>)
     = Inr \<lparr>value_stmt = Some 1, the_index = 0\<rparr>"
  by (simp add: step_def subscript_def toy_defs sqlite_codes)

text \<open>
  Claim C4, amended: for an index below \<open>2 ^ 31\<close>, column access raises an error
  (code \<^verbatim>\<open>SQLITE_ERROR\<close>, "column index i is out of range") exactly when the statement
  holds no handle or the index is at least the column count the engine reports, and
  otherwise returns the accessor of that column, whether or not a row is positioned.
  In particular the index equal to the column count always fails.
\<close>

theorem subscript_index_error:
  "unat idx < 2 ^ 31 \<Longrightarrow>
   subscript eng st idx w =
     (if the_stmt st = None \<or> sqlite3_column_count eng (the_stmt st) w \<le> int (unat idx)
      then Inl (Error SQLITE_ERROR (''column index '' @ write_unsigned idx @ '' is out of range''))
      else Inr \<lparr>value_stmt = the_stmt st, the_index = idx\<rparr>)
   \<and> (sqlite3_column_count eng (the_stmt st) w = int (unat idx) \<longrightarrow>
      subscript eng st idx w =
        Inl (Error SQLITE_ERROR (''column index '' @ write_unsigned idx @ '' is out of range'')))"
  by (simp add: subscript_def sint_small)

theorem subscript_index_error_witness:
  "subscript toy_engine toy_stmt 1 (toy_empty\<lparr>toy_columns := 1\<rparr>)
     = Inl (Error SQLITE_ERROR ''column index 1 is out of range'')"
proof -
  have h: "unat (1 :: 32 word) < 2 ^ 31" by simp
  have c: "sqlite3_column_count toy_engine (the_stmt toy_stmt) (toy_empty\<lparr>toy_columns := 1\<rparr>)
             = int (unat (1 :: 32 word))"
    by (simp add: toy_defs)
  have m: "write_unsigned 1 = ''1''" by code_simp
  from subscript_index_error [OF h, THEN conjunct2, rule_format, OF c] show ?thesis
    by (simp add: m)
qed

section \<open>Statement: binding by name\<close>

text \<open>
  What \<^verbatim>\<open>bind(name, value)\<close> does is decided by the engine's answer for the name as
  a C string.
\<close>

lemma bind_name_as_engine_sees:
  "(sqlite3_bind_parameter_index eng (the_stmt st) (c_str argname) w = 0 \<longrightarrow>
      bind_name eng st argname x w =
        (Inl (Error SQLITE_ERROR
               (c_str (''unknown parameter name '' @ [CHR 0x27] @ argname @ [CHR 0x27]))), w))
   \<and> (sqlite3_bind_parameter_index eng (the_stmt st) (c_str argname) w = n \<and> n \<noteq> 0 \<longrightarrow>
      bind_name eng st argname x w = bind eng st (word_of_int n) x w)"
  by (simp add: bind_name_def)

lemma unknown_name_message:
  "NUL \<notin> set argname \<Longrightarrow>
   c_str (''unknown parameter name '' @ [CHR 0x27] @ argname @ [CHR 0x27])
     = ''unknown parameter name '' @ [CHR 0x27] @ argname @ [CHR 0x27]"
  by (rule c_str_plain) (simp add: NUL_def)

text \<open>
  Claim C6, as the specification states it: for every name that is not a parameter of
  the statement, \<^verbatim>\<open>bind(name, value)\<close> raises an error and binds nothing. The name is
  handed to the engine with \<^verbatim>\<open>c_str()\<close>, so the engine reads it up to its first zero
  byte only. On the test engine, for a statement with the parameters \<^verbatim>\<open>:a\<close> and
  \<^verbatim>\<open>:b\<close>, the name made of \<^verbatim>\<open>:b\<close>, a zero byte and \<^verbatim>\<open>zz\<close> is not a parameter of the
  statement and the engine answers 0 for it, and yet the call raises nothing and binds
  the value to position 2.
\<close>

theorem bind_name_zero_byte_counterexample:
  "[CHR '':'', CHR ''b'', NUL, CHR ''z'', CHR ''z'']
     \<notin> set (toy_params (toy_empty\<lparr>toy_params := ['':a'', '':b'']\<rparr>))
   \<and> sqlite3_bind_parameter_index toy_engine (the_stmt toy_stmt)
       [CHR '':'', CHR ''b'', NUL, CHR ''z'', CHR ''z'']
       (toy_empty\<lparr>toy_params := ['':a'', '':b'']\<rparr>) = 0
   \<and> bind_name toy_engine toy_stmt [CHR '':'', CHR ''b'', NUL, CHR ''z'', CHR ''z'']
       (BindText ''v'') (toy_empty\<lparr>toy_params := ['':a'', '':b'']\<rparr>)
     = (Inr (), toy_empty\<lparr>toy_params := ['':a'', '':b''], toy_bound := [(2, CText ''v'')]\<rparr>)"
  by (simp add: bind_name_def bind_result_def c_str_def c_buffer_def NUL_def toy_defs sqlite_codes)

text \<open>
  Claim C6, amended: for every name without a zero byte, when the engine does not find
  the name in the statement (it answers 0), \<^verbatim>\<open>bind(name, value)\<close> raises an error
  (code \<^verbatim>\<open>SQLITE_ERROR\<close>, "unknown parameter name" and the quoted name) and the engine
  state is untouched, so that no binding is applied; when the engine resolves the name
  to a position \<open>n\<close>, the call is the positional \<^verbatim>\<open>bind\<close> at \<open>n\<close>, which hands \<open>n\<close>
  itself to the engine.
\<close>

theorem bind_name_unknown_or_resolved:
  "NUL \<notin> set argname \<Longrightarrow>
   (sqlite3_bind_parameter_index eng (the_stmt st) argname w = 0 \<longrightarrow>
      bind_name eng st argname x w =
        (Inl (Error SQLITE_ERROR
               (''unknown parameter name '' @ [CHR 0x27] @ argname @ [CHR 0x27])), w))
   \<and> (sqlite3_bind_parameter_index eng (the_stmt st) argname w = n \<and> n \<noteq> 0
        \<and> - (2 ^ 31) \<le> n \<and> n < 2 ^ 31 \<longrightarrow>
      bind_name eng st argname x w = bind eng st (word_of_int n) x w
      \<and> sint (word_of_int n :: 32 word) = n)"
proof -
  assume plain: "NUL \<notin> set argname"
  from bind_name_as_engine_sees [of eng st argname w x n]
  have seen:
    "(sqlite3_bind_parameter_index eng (the_stmt st) argname w = 0 \<longrightarrow>
        bind_name eng st argname x w =
          (Inl (Error SQLITE_ERROR
                 (''unknown parameter name '' @ [CHR 0x27] @ argname @ [CHR 0x27])), w))
     \<and> (sqlite3_bind_parameter_index eng (the_stmt st) argname w = n \<and> n \<noteq> 0 \<longrightarrow>
        bind_name eng st argname x w = bind eng st (word_of_int n) x w)"
    by (simp only: c_str_plain [OF plain] unknown_name_message [OF plain])
  then show ?thesis
    by (auto simp add: sint_of_int_small)
qed

theorem bind_name_witness:
  "bind_name toy_engine toy_stmt '':c'' (BindText ''v'')
       (toy_empty\<lparr>toy_params := ['':a'', '':b'']\<rparr>)
     = (Inl (Error SQLITE_ERROR (''unknown parameter name '' @ [CHR 0x27] @ '':c'' @ [CHR 0x27])),
        toy_empty\<lparr>toy_params := ['':a'', '':b'']\<rparr>)
   \<and> bind_name toy_engine toy_stmt '':b'' (BindText ''v'')
       (toy_empty\<lparr>toy_params := ['':a'', '':b'']\<rparr>)
     = (Inr (), toy_empty\<lparr>toy_params := ['':a'', '':b''], toy_bound := [(2, CText ''v'')]\<rparr>)"
proof -
  let ?w = "toy_empty\<lparr>toy_params := ['':a'', '':b'']\<rparr>"
  have pc: "NUL \<notin> set '':c''" and pb: "NUL \<notin> set '':b''"
    by (simp_all add: NUL_def)
  have u: "sqlite3_bind_parameter_index toy_engine (the_stmt toy_stmt) '':c'' ?w = 0"
    by (simp add: toy_defs)
  have r: "sqlite3_bind_parameter_index toy_engine (the_stmt toy_stmt) '':b'' ?w = 2
           \<and> (2::int) \<noteq> 0 \<and> - (2 ^ 31) \<le> (2::int) \<and> (2::int) < 2 ^ 31"
    by (simp add: toy_defs)
  from bind_name_unknown_or_resolved [OF pc, of toy_engine toy_stmt ?w "BindText ''v''" 0,
         THEN conjunct1, rule_format, OF u]
       bind_name_unknown_or_resolved [OF pb, of toy_engine toy_stmt ?w "BindText ''v''" 2,
         THEN conjunct2, rule_format, OF r]
  show ?thesis by (simp add: toy_defs bind_result_def c_buffer_def sqlite_codes)
qed

section \<open>Statement: exec\<close>

text \<open>
  Claim C8: \<^verbatim>\<open>exec()\<close> calls \<^verbatim>\<open>sqlite3_step\<close> once. On \<^verbatim>\<open>SQLITE_DONE\<close> it returns the
  empty text; on \<^verbatim>\<open>SQLITE_ROW\<close> it returns the text of column 0, read as a C string,
  or the empty text when there are no columns or the engine hands out a null pointer;
  on any other result it raises an error carrying that result.
\<close>

theorem exec_single_value:
  "sqlite3_step eng (the_stmt st) w = (res, w') \<Longrightarrow>
   (res = SQLITE_DONE \<longrightarrow> exec eng st w = (Some (Inr []), w'))
   \<and> (res = SQLITE_ROW \<and> sqlite3_column_count eng (the_stmt st) w' = 0 \<longrightarrow>
        exec eng st w = (Some (Inr []), w'))
   \<and> (res = SQLITE_ROW \<and> sqlite3_column_count eng (the_stmt st) w' \<noteq> 0
        \<and> sqlite3_column_text eng (the_stmt st) 0 w' = None \<longrightarrow>
        exec eng st w = (Some (Inr []), w'))
   \<and> (res = SQLITE_ROW \<and> sqlite3_column_count eng (the_stmt st) w' \<noteq> 0
        \<and> sqlite3_column_text eng (the_stmt st) 0 w' = Some data \<and> NUL \<in> set data \<longrightarrow>
        exec eng st w = (Some (Inr (takeWhile (\<lambda>c. c \<noteq> NUL) data)), w'))
   \<and> (res \<noteq> SQLITE_DONE \<and> res \<noteq> SQLITE_ROW \<longrightarrow>
        exec eng st w = (Some (Inl (Error res ''execution failed'')), w'))"
  by (simp add: exec_def string_of_cstr_def sqlite_codes)

theorem exec_single_value_witness:
  "exec toy_engine toy_stmt
     (toy_empty\<lparr>toy_columns := 2, toy_pending := [[CText ''one'', CText ''two'']]\<rparr>)
   = (Some (Inr ''one''),
      toy_empty\<lparr>toy_columns := 2, toy_current := Some [CText ''one'', CText ''two'']\<rparr>)"
proof -
  let ?w = "toy_empty\<lparr>toy_columns := 2, toy_pending := [[CText ''one'', CText ''two'']]\<rparr>"
  let ?w' = "toy_empty\<lparr>toy_columns := 2, toy_current := Some [CText ''one'', CText ''two'']\<rparr>"
  have s: "sqlite3_step toy_engine (the_stmt toy_stmt) ?w = (SQLITE_ROW, ?w')"
    by (simp add: toy_defs)
  have r: "SQLITE_ROW = SQLITE_ROW \<and> sqlite3_column_count toy_engine (the_stmt toy_stmt) ?w' \<noteq> 0
           \<and> sqlite3_column_text toy_engine (the_stmt toy_stmt) 0 ?w' = Some (''one'' @ [NUL])
           \<and> NUL \<in> set (''one'' @ [NUL])"
    by (simp add: toy_defs)
  from exec_single_value [OF s, THEN conjunct2, THEN conjunct2, THEN conjunct2, THEN conjunct1,
         rule_format, OF r]
  show ?thesis by (simp add: NUL_def)
qed



section \<open>Value: reading text\<close>

lemma as_text_null:
  "sqlite3_column_text eng (value_stmt v) (sint (the_index v)) w = None \<Longrightarrow>
   as_text eng v w = Some []"
  by (simp add: as_text_def)

lemma as_text_exact:
  assumes "sqlite3_column_text eng (value_stmt v) (sint (the_index v)) w = Some data"
    and "type eng v w = SQLITE_TEXT \<or> type eng v w = SQLITE_BLOB"
    and "sqlite3_column_bytes eng (value_stmt v) (sint (the_index v)) w = n"
    and "0 \<le> n" "n < 2 ^ 31" "nat n \<le> length data"
  shows "as_text eng v w = Some (take (nat n) data)"
proof -
  have "unat (word_of_int n :: 64 word) = nat n"
    using assms(4,5) by (rule unat_of_int_small)
  with assms(1,2,3,6) show ?thesis
    by (simp add: as_text_def is_text_def is_blob_def string_of_bytes_def)
qed

lemma as_text_terminated:
  assumes "sqlite3_column_text eng (value_stmt v) (sint (the_index v)) w = Some (s @ [NUL])"
    and "type eng v w = SQLITE_TEXT \<or> type eng v w = SQLITE_BLOB"
    and "sqlite3_column_bytes eng (value_stmt v) (sint (the_index v)) w = int (length s)"
    and "length s < 2 ^ 31"
  shows "as_text eng v w = Some s"
proof -
  have "as_text eng v w = Some (take (nat (int (length s))) (s @ [NUL]))"
    using assms by (intro as_text_exact) simp_all
  then show ?thesis by simp
qed

lemma as_text_coerced:
  assumes "sqlite3_column_text eng (value_stmt v) (sint (the_index v)) w = Some data"
    and "type eng v w \<noteq> SQLITE_TEXT" "type eng v w \<noteq> SQLITE_BLOB"
    and "NUL \<in> set data"
  shows "as_text eng v w = Some (takeWhile (\<lambda>c. c \<noteq> NUL) data)"
  using assms by (simp add: as_text_def is_text_def is_blob_def string_of_cstr_def)

lemma toy_integer_text: "cell_text (CInteger 42) = Some (''42'' @ [NUL])"
  by code_simp

text \<open>
  Claim C7: \<^verbatim>\<open>as_text()\<close> returns the empty text when the engine hands out a null
  pointer. Otherwise, for a cell of kind text or blob it returns exactly as many bytes
  of the buffer as the engine reports, zero bytes included, so that a text \<open>s\<close> that the
  engine holds (the buffer is \<open>s\<close> and its terminator, the reported length is that of
  \<open>s\<close>) is read back as \<open>s\<close>; for a cell of any other kind it returns the buffer up to
  its first zero byte.
\<close>

theorem as_text_cases:
  "(sqlite3_column_text eng (value_stmt v) (sint (the_index v)) w = None \<longrightarrow>
      as_text eng v w = Some [])
   \<and> (sqlite3_column_text eng (value_stmt v) (sint (the_index v)) w = Some data
        \<and> (type eng v w = SQLITE_TEXT \<or> type eng v w = SQLITE_BLOB)
        \<and> sqlite3_column_bytes eng (value_stmt v) (sint (the_index v)) w = n
        \<and> 0 \<le> n \<and> n < 2 ^ 31 \<and> nat n \<le> length data \<longrightarrow>
      as_text eng v w = Some (take (nat n) data))
   \<and> (sqlite3_column_text eng (value_stmt v) (sint (the_index v)) w = Some (s @ [NUL])
        \<and> (type eng v w = SQLITE_TEXT \<or> type eng v w = SQLITE_BLOB)
        \<and> sqlite3_column_bytes eng (value_stmt v) (sint (the_index v)) w = int (length s)
        \<and> length s < 2 ^ 31 \<longrightarrow>
      as_text eng v w = Some s)
   \<and> (sqlite3_column_text eng (value_stmt v) (sint (the_index v)) w = Some data
        \<and> type eng v w \<noteq> SQLITE_TEXT \<and> type eng v w \<noteq> SQLITE_BLOB
        \<and> NUL \<in> set data \<longrightarrow>
      as_text eng v w = Some (takeWhile (\<lambda>c. c \<noteq> NUL) data))"
proof (intro conjI impI)
  assume "sqlite3_column_text eng (value_stmt v) (sint (the_index v)) w = None"
  then show "as_text eng v w = Some []" by (rule as_text_null)
next
  assume "sqlite3_column_text eng (value_stmt v) (sint (the_index v)) w = Some data
        \<and> (type eng v w = SQLITE_TEXT \<or> type eng v w = SQLITE_BLOB)
        \<and> sqlite3_column_bytes eng (value_stmt v) (sint (the_index v)) w = n
        \<and> 0 \<le> n \<and> n < 2 ^ 31 \<and> nat n \<le> length data"
  then show "as_text eng v w = Some (take (nat n) data)"
    by (intro as_text_exact) simp_all
next
  assume "sqlite3_column_text eng (value_stmt v) (sint (the_index v)) w = Some (s @ [NUL])
        \<and> (type eng v w = SQLITE_TEXT \<or> type eng v w = SQLITE_BLOB)
        \<and> sqlite3_column_bytes eng (value_stmt v) (sint (the_index v)) w = int (length s)
        \<and> length s < 2 ^ 31"
  then show "as_text eng v w = Some s"
    by (intro as_text_terminated) simp_all
next
  assume "sqlite3_column_text eng (value_stmt v) (sint (the_index v)) w = Some data
        \<and> type eng v w \<noteq> SQLITE_TEXT \<and> type eng v w \<noteq> SQLITE_BLOB
        \<and> NUL \<in> set data"
  then show "as_text eng v w = Some (takeWhile (\<lambda>c. c \<noteq> NUL) data)"
    by (intro as_text_coerced) simp_all
qed

theorem as_text_cases_witness:
  "as_text toy_engine \<lparr>value_stmt = Some 1, the_index = 0\<rparr>
     (toy_empty\<lparr>toy_columns := 3,
        toy_current := Some [CText [CHR ''a'', NUL, CHR ''b''], CInteger 42, CNull]\<rparr>)
     = Some [CHR ''a'', NUL, CHR ''b'']
   \<and> as_text toy_engine \<lparr>value_stmt = Some 1, the_index = 1\<rparr>
     (toy_empty\<lparr>toy_columns := 3,
        toy_current := Some [CText [CHR ''a'', NUL, CHR ''b''], CInteger 42, CNull]\<rparr>)
     = Some ''42''
   \<and> as_text toy_engine \<lparr>value_stmt = Some 1, the_index = 2\<rparr>
     (toy_empty\<lparr>toy_columns := 3,
        toy_current := Some [CText [CHR ''a'', NUL, CHR ''b''], CInteger 42, CNull]\<rparr>)
     = Some []"
proof -
  let ?w = "toy_empty\<lparr>toy_columns := 3,
        toy_current := Some [CText [CHR ''a'', NUL, CHR ''b''], CInteger 42, CNull]\<rparr>"
  let ?v0 = "\<lparr>value_stmt = Some 1, the_index = 0\<rparr>"
  let ?v1 = "\<lparr>value_stmt = Some 1, the_index = 1\<rparr>"
  let ?v2 = "\<lparr>value_stmt = Some 1, the_index = 2\<rparr>"
  have h0: "sqlite3_column_text toy_engine (value_stmt ?v0) (sint (the_index ?v0)) ?w
              = Some ([CHR ''a'', NUL, CHR ''b''] @ [NUL])
            \<and> (type toy_engine ?v0 ?w = SQLITE_TEXT \<or> type toy_engine ?v0 ?w = SQLITE_BLOB)
            \<and> sqlite3_column_bytes toy_engine (value_stmt ?v0) (sint (the_index ?v0)) ?w
              = int (length [CHR ''a'', NUL, CHR ''b''])
            \<and> length [CHR ''a'', NUL, CHR ''b''] < 2 ^ 31"
    by (simp add: toy_defs type_def)
  have h1: "sqlite3_column_text toy_engine (value_stmt ?v1) (sint (the_index ?v1)) ?w
              = Some (''42'' @ [NUL])
            \<and> type toy_engine ?v1 ?w \<noteq> SQLITE_TEXT \<and> type toy_engine ?v1 ?w \<noteq> SQLITE_BLOB
            \<and> NUL \<in> set (''42'' @ [NUL])"
    using toy_integer_text by (simp add: toy_defs type_def sqlite_codes)
  have h2: "sqlite3_column_text toy_engine (value_stmt ?v2) (sint (the_index ?v2)) ?w = None"
    by (simp add: toy_defs)
  from as_text_cases [of toy_engine ?v0 ?w _ _ "[CHR ''a'', NUL, CHR ''b'']",
         THEN conjunct2, THEN conjunct2, THEN conjunct1, rule_format, OF h0]
       as_text_cases [of toy_engine ?v1 ?w "''42'' @ [NUL]",
         THEN conjunct2, THEN conjunct2, THEN conjunct2, rule_format, OF h1]
       as_text_cases [of toy_engine ?v2 ?w, THEN conjunct1, rule_format, OF h2]
  show ?thesis by (simp add: NUL_def)
qed

text \<open>
  Claim C10: when \<^verbatim>\<open>exec()\<close> reaches a row whose column 0 is a text or a blob \<open>s\<close>
  with a zero byte in it, it returns only the bytes of \<open>s\<close> before the first zero
  byte, a proper prefix, where \<^verbatim>\<open>as_text()\<close> on column 0 of that row returns all of
  \<open>s\<close>.
\<close>

theorem exec_truncates_at_zero_byte:
  assumes "sqlite3_step eng (the_stmt st) w = (SQLITE_ROW, w')"
    and "subscript eng st 0 w' = Inr v"
    and "sqlite3_column_text eng (the_stmt st) 0 w' = Some (s @ [NUL])"
    and "sqlite3_column_type eng (the_stmt st) 0 w' = SQLITE_TEXT
         \<or> sqlite3_column_type eng (the_stmt st) 0 w' = SQLITE_BLOB"
    and "sqlite3_column_bytes eng (the_stmt st) 0 w' = int (length s)"
    and "length s < 2 ^ 31"
    and "NUL \<in> set s"
  shows "exec eng st w = (Some (Inr (takeWhile (\<lambda>c. c \<noteq> NUL) s)), w')
         \<and> as_text eng v w' = Some s
         \<and> length (takeWhile (\<lambda>c. c \<noteq> NUL) s) < length s"
proof -
  from assms(2) have v: "v = \<lparr>value_stmt = the_stmt st, the_index = 0\<rparr>"
    and cols: "sqlite3_column_count eng (the_stmt st) w' \<noteq> 0"
    by (auto simp add: subscript_def split: if_splits)
  have cut: "takeWhile (\<lambda>c. c \<noteq> NUL) (s @ [NUL]) = takeWhile (\<lambda>c. c \<noteq> NUL) s"
    using assms(7) by (simp add: takeWhile_append1)
  have "exec eng st w = (Some (Inr (takeWhile (\<lambda>c. c \<noteq> NUL) s)), w')"
    using assms(1,3) cols cut by (simp add: exec_def string_of_cstr_def sqlite_codes)
  moreover have "as_text eng v w' = Some s"
    using assms(3,4,5,6) by (intro as_text_terminated) (simp_all add: v type_def)
  moreover have "length (takeWhile (\<lambda>c. c \<noteq> NUL) s) < length s"
    using assms(7) by (rule takeWhile_stops_early) simp
  ultimately show ?thesis by simp
qed

theorem exec_truncates_at_zero_byte_witness:
  "exec toy_engine toy_stmt
     (toy_empty\<lparr>toy_columns := 1, toy_pending := [[CBlob [CHR ''a'', NUL, CHR ''b'']]]\<rparr>)
     = (Some (Inr ''a''),
        toy_empty\<lparr>toy_columns := 1, toy_current := Some [CBlob [CHR ''a'', NUL, CHR ''b'']]\<rparr>)
   \<and> as_text toy_engine \<lparr>value_stmt = Some 1, the_index = 0\<rparr>
       (toy_empty\<lparr>toy_columns := 1, toy_current := Some [CBlob [CHR ''a'', NUL, CHR ''b'']]\<rparr>)
     = Some [CHR ''a'', NUL, CHR ''b'']"
proof -
  let ?w = "toy_empty\<lparr>toy_columns := 1, toy_pending := [[CBlob [CHR ''a'', NUL, CHR ''b'']]]\<rparr>"
  let ?w' = "toy_empty\<lparr>toy_columns := 1, toy_current := Some [CBlob [CHR ''a'', NUL, CHR ''b'']]\<rparr>"
  let ?s = "[CHR ''a'', NUL, CHR ''b'']"
  have 1: "sqlite3_step toy_engine (the_stmt toy_stmt) ?w = (SQLITE_ROW, ?w')"
    by (simp add: toy_defs)
  have 2: "subscript toy_engine toy_stmt 0 ?w' = Inr \<lparr>value_stmt = Some 1, the_index = 0\<rparr>"
    by (simp add: subscript_def toy_defs)
  have 3: "sqlite3_column_text toy_engine (the_stmt toy_stmt) 0 ?w' = Some (?s @ [NUL])"
    by (simp add: toy_defs)
  have 4: "sqlite3_column_type toy_engine (the_stmt toy_stmt) 0 ?w' = SQLITE_TEXT
         \<or> sqlite3_column_type toy_engine (the_stmt toy_stmt) 0 ?w' = SQLITE_BLOB"
    by (simp add: toy_defs)
  have 5: "sqlite3_column_bytes toy_engine (the_stmt toy_stmt) 0 ?w' = int (length ?s)"
    by (simp add: toy_defs)
  have 6: "length ?s < 2 ^ 31" by simp
  have 7: "NUL \<in> set ?s" by simp
  from exec_truncates_at_zero_byte [OF 1 2 3 4 5 6 7]
  show ?thesis by (simp add: NUL_def)
qed

section \<open>Transaction: rollback\<close>

text \<open>
  Claim C5, as the specification states it: \<^verbatim>\<open>rollback()\<close> on an active transaction
  issues \<^verbatim>\<open>ROLLBACK\<close> exactly once, raises an error on any result other than
  \<^verbatim>\<open>SQLITE_OK\<close>, and the transaction is resolved whatever the result. The last part
  is not what the code does: the throw comes before \<^verbatim>\<open>done_ = true\<close>. On the test
  engine, with a \<^verbatim>\<open>ROLLBACK\<close> that is answered \<^verbatim>\<open>SQLITE_BUSY\<close>, \<^verbatim>\<open>rollback()\<close> throws
  and \<^verbatim>\<open>done_\<close> is still false.
\<close>

theorem rollback_failure_counterexample:
  "fst (rollback toy_engine toy_transaction (toy_empty\<lparr>toy_replies := [SQLITE_BUSY]\<rparr>))
     = Inl (Error SQLITE_BUSY ''rollback failed'')
   \<and> the_done (fst (snd (rollback toy_engine toy_transaction
                            (toy_empty\<lparr>toy_replies := [SQLITE_BUSY]\<rparr>)))) = False"
  by (simp add: rollback_def Transaction_exec_def toy_defs sqlite_codes)

text \<open>
  Claim C5, amended: \<^verbatim>\<open>rollback()\<close> runs \<^verbatim>\<open>exec("ROLLBACK;")\<close> exactly once, whatever
  the result (the engine state it leaves is the one after that single run, also when
  the result is \<^verbatim>\<open>SQLITE_BUSY\<close>). When the result is \<^verbatim>\<open>SQLITE_OK\<close> the transaction
  becomes resolved; on any other result an error carrying that result code and the
  message "rollback failed" is thrown and the transaction is left as it was.
\<close>

theorem rollback_once:
  "Transaction_exec eng t ''ROLLBACK;'' w = (res, w') \<Longrightarrow>
   rollback eng t w =
     (if res = SQLITE_OK then (Inr (), t\<lparr>the_done := True\<rparr>, w')
      else (Inl (Error res ''rollback failed''), t, w'))"
  by (simp add: rollback_def)

lemma toy_rollback_busy:
  "Transaction_exec toy_engine toy_transaction ''ROLLBACK;''
     (toy_empty\<lparr>toy_replies := [SQLITE_BUSY]\<rparr>)
   = (SQLITE_BUSY, toy_empty\<lparr>toy_log := [(Some 0, ''ROLLBACK;'')]\<rparr>)"
  by (simp add: Transaction_exec_def toy_defs sqlite_codes)

theorem rollback_once_witness:
  "rollback toy_engine toy_transaction (toy_empty\<lparr>toy_replies := [SQLITE_BUSY]\<rparr>) =
     (Inl (Error SQLITE_BUSY ''rollback failed''), toy_transaction,
      toy_empty\<lparr>toy_log := [(Some 0, ''ROLLBACK;'')]\<rparr>)"
  using rollback_once [OF toy_rollback_busy] by (simp add: sqlite_codes)

section \<open>Transaction: commit and destruction\<close>

text \<open>The three ways one round of the commit loop can go.\<close>

lemma try_commit_ok:
  "Transaction_exec eng t ''COMMIT;'' w = (SQLITE_OK, w') \<Longrightarrow>
   try_commit eng exc t w = Some (Inr True, t\<lparr>the_done := True\<rparr>, w')"
  by (subst try_commit.simps) simp

lemma try_commit_fail:
  "Transaction_exec eng t ''COMMIT;'' w = (res, w') \<Longrightarrow> res \<noteq> SQLITE_OK \<Longrightarrow>
   res \<noteq> SQLITE_BUSY \<Longrightarrow>
   try_commit eng exc t w =
     Some (if exc then (Inl (Error res ''commit failed''), t, w') else (Inr False, t, w'))"
  by (subst try_commit.simps) simp

lemma try_commit_busy:
  "Transaction_exec eng t ''COMMIT;'' w = (SQLITE_BUSY, w') \<Longrightarrow>
   try_commit eng exc t w = try_commit eng exc t w'"
  by (subst try_commit.simps) (simp add: sqlite_codes)

lemma commit_attempts_0: "commit_attempts eng t 0 w = w"
  by (simp add: commit_attempts_def)

lemma commit_attempts_Suc:
  "commit_attempts eng t (Suc k) w
     = commit_attempts eng t k (snd (Transaction_exec eng t ''COMMIT;'' w))"
  by (simp add: commit_attempts_def funpow_Suc_right del: funpow.simps)

lemma try_commit_skip_busy:
  "(\<forall>i<k. fst (Transaction_exec eng t ''COMMIT;'' (commit_attempts eng t i w)) = SQLITE_BUSY) \<Longrightarrow>
   try_commit eng exc t w = try_commit eng exc t (commit_attempts eng t k w)"
proof (induction k arbitrary: w)
  case 0
  show ?case by (simp add: commit_attempts_0)
next
  case (Suc k)
  obtain res w1 where e: "Transaction_exec eng t ''COMMIT;'' w = (res, w1)"
    by (cases "Transaction_exec eng t ''COMMIT;'' w")
  from Suc.prems have "fst (Transaction_exec eng t ''COMMIT;'' (commit_attempts eng t 0 w)) = SQLITE_BUSY"
    by blast
  with e have b: "res = SQLITE_BUSY" by (simp add: commit_attempts_0)
  have "\<forall>i<k. fst (Transaction_exec eng t ''COMMIT;'' (commit_attempts eng t i w1)) = SQLITE_BUSY"
  proof (intro allI impI)
    fix i assume "i < k"
    then have "Suc i < Suc k" by simp
    with Suc.prems have "fst (Transaction_exec eng t ''COMMIT;'' (commit_attempts eng t (Suc i) w)) = SQLITE_BUSY"
      by blast
    then show "fst (Transaction_exec eng t ''COMMIT;'' (commit_attempts eng t i w1)) = SQLITE_BUSY"
      by (simp add: commit_attempts_Suc e)
  qed
  then have "try_commit eng exc t w1 = try_commit eng exc t (commit_attempts eng t k w1)"
    by (rule Suc.IH)
  moreover have "try_commit eng exc t w = try_commit eng exc t w1"
    using e b by (intro try_commit_busy) simp
  ultimately show ?case by (simp add: commit_attempts_Suc e)
qed

lemma try_commit_returns_after_answer:
  assumes "try_commit eng exc t w = Some r"
  shows "\<exists>k. fst (Transaction_exec eng t ''COMMIT;'' (commit_attempts eng t k w)) \<noteq> SQLITE_BUSY"
proof (rule try_commit.raw_induct
    [where P = "\<lambda>eng exc t w r.
        \<exists>k. fst (Transaction_exec eng t ''COMMIT;'' (commit_attempts eng t k w)) \<noteq> SQLITE_BUSY",
      OF _ assms])
  fix f :: "'a sqlite3 \<Rightarrow> bool \<Rightarrow> Transaction \<Rightarrow> 'a \<Rightarrow> ((Error + bool) \<times> Transaction \<times> 'a) option"
    and eng exc t w r
  assume IH: "\<And>eng exc t w r. f eng exc t w = Some r \<Longrightarrow>
      \<exists>k. fst (Transaction_exec eng t ''COMMIT;'' (commit_attempts eng t k w)) \<noteq> SQLITE_BUSY"
    and body: "(case Transaction_exec eng t ''COMMIT;'' w of
         (res, w') \<Rightarrow>
           if res = SQLITE_OK then Some (Inr True, t\<lparr>the_done := True\<rparr>, w')
           else if res \<noteq> SQLITE_BUSY
                then if exc then Some (Inl (Error res ''commit failed''), t, w')
                     else Some (Inr False, t, w')
                else f eng exc t w') = Some r"
  obtain res w1 where e: "Transaction_exec eng t ''COMMIT;'' w = (res, w1)"
    by (cases "Transaction_exec eng t ''COMMIT;'' w")
  show "\<exists>k. fst (Transaction_exec eng t ''COMMIT;'' (commit_attempts eng t k w)) \<noteq> SQLITE_BUSY"
  proof (cases "res = SQLITE_BUSY")
    case False
    with e have "fst (Transaction_exec eng t ''COMMIT;'' (commit_attempts eng t 0 w)) \<noteq> SQLITE_BUSY"
      by (simp add: commit_attempts_0)
    then show ?thesis by blast
  next
    case True
    with body e have "f eng exc t w1 = Some r" by (simp add: sqlite_codes)
    then obtain k where
      "fst (Transaction_exec eng t ''COMMIT;'' (commit_attempts eng t k w1)) \<noteq> SQLITE_BUSY"
      using IH by blast
    then have "fst (Transaction_exec eng t ''COMMIT;'' (commit_attempts eng t (Suc k) w)) \<noteq> SQLITE_BUSY"
      by (simp add: commit_attempts_Suc e)
    then show ?thesis by blast
  qed
qed

lemma try_commit_no_throw:
  assumes "try_commit eng exc t w = Some r"
  shows "\<not> exc \<longrightarrow> fst r \<noteq> Inl e"
  by (rule try_commit.raw_induct [where P = "\<lambda>eng exc t w r. \<not> exc \<longrightarrow> fst r \<noteq> Inl e", OF _ assms])
    (auto split: prod.splits if_splits)

lemma try_commit_success_done:
  assumes "try_commit eng exc t w = Some r"
  shows "fst r = Inr True \<longrightarrow> the_done (fst (snd r))"
  by (rule try_commit.raw_induct
        [where P = "\<lambda>eng exc t w r. fst r = Inr True \<longrightarrow> the_done (fst (snd r))", OF _ assms])
    (auto split: prod.splits if_splits)

lemma try_commit_true_or_throw:
  assumes "try_commit eng exc t w = Some r"
  shows "exc \<longrightarrow> fst r \<noteq> Inr False"
  by (rule try_commit.raw_induct [where P = "\<lambda>eng exc t w r. exc \<longrightarrow> fst r \<noteq> Inr False", OF _ assms])
    (auto split: prod.splits if_splits)

lemma commit_after_busy:
  assumes "\<forall>i<k. fst (Transaction_exec eng t ''COMMIT;'' (commit_attempts eng t i w)) = SQLITE_BUSY"
    and "Transaction_exec eng t ''COMMIT;'' (commit_attempts eng t k w) = (res, w')"
    and "res \<noteq> SQLITE_BUSY"
  shows "try_commit eng exc t w =
           Some (if res = SQLITE_OK then (Inr True, t\<lparr>the_done := True\<rparr>, w')
                 else if exc then (Inl (Error res ''commit failed''), t, w')
                 else (Inr False, t, w'))"
proof -
  have "try_commit eng exc t w = try_commit eng exc t (commit_attempts eng t k w)"
    using assms(1) by (rule try_commit_skip_busy)
  also have "\<dots> = Some (if res = SQLITE_OK then (Inr True, t\<lparr>the_done := True\<rparr>, w')
                 else if exc then (Inl (Error res ''commit failed''), t, w')
                 else (Inr False, t, w'))"
  proof (cases "res = SQLITE_OK")
    case True
    with assms(2) show ?thesis by (simp add: try_commit_ok)
  next
    case False
    with assms(2,3) show ?thesis by (simp add: try_commit_fail)
  qed
  finally show ?thesis .
qed

lemma try_commit_diverges:
  assumes "\<forall>i. fst (Transaction_exec eng t ''COMMIT;'' (commit_attempts eng t i w)) = SQLITE_BUSY"
  shows "try_commit eng exc t w = None"
proof (cases "try_commit eng exc t w")
  case None
  then show ?thesis .
next
  case (Some r)
  from try_commit_returns_after_answer [OF Some] obtain k where
    "fst (Transaction_exec eng t ''COMMIT;'' (commit_attempts eng t k w)) \<noteq> SQLITE_BUSY" ..
  with assms show ?thesis by blast
qed

lemma destroy_no_throw: "destroy eng t w \<noteq> Some (Inl e, t', w'')"
proof
  assume a: "destroy eng t w = Some (Inl e, t', w'')"
  then obtain r where r: "try_commit eng False t w = Some r" and d: "discard r = (Inl e, t', w'')"
    by (auto simp add: destroy_def)
  from d have "fst r = Inl e"
    by (cases r) (auto simp add: discard_def map_sum_def split: sum.splits)
  with try_commit_no_throw [OF r, of e] show False by simp
qed

text \<open>
  Claim C2: \<^verbatim>\<open>commit()\<close> issues \<^verbatim>\<open>COMMIT\<close> again for as long as the engine answers
  \<^verbatim>\<open>SQLITE_BUSY\<close>. When the first \<open>k\<close> runs are answered busy and the next one with
  another result, \<^verbatim>\<open>commit()\<close> returns after exactly these \<open>k + 1\<close> runs: the
  transaction is resolved when that result is \<^verbatim>\<open>SQLITE_OK\<close>, and otherwise an error
  carrying the result is raised. The destructor runs the same loop to the same engine
  state and returns without an error. When every run is answered busy, neither
  returns. The destructor raises an error on no engine at all.
\<close>

theorem commit_retries_destroy_swallows:
  "((\<forall>i<k. fst (Transaction_exec eng t ''COMMIT;'' (commit_attempts eng t i w)) = SQLITE_BUSY)
     \<and> Transaction_exec eng t ''COMMIT;'' (commit_attempts eng t k w) = (res, w')
     \<and> res \<noteq> SQLITE_BUSY \<longrightarrow>
       commit eng t w =
         Some (if res = SQLITE_OK then (Inr (), t\<lparr>the_done := True\<rparr>, w')
               else (Inl (Error res ''commit failed''), t, w'))
       \<and> destroy eng t w =
         Some (Inr (), if res = SQLITE_OK then t\<lparr>the_done := True\<rparr> else t, w'))
   \<and> ((\<forall>i. fst (Transaction_exec eng t ''COMMIT;'' (commit_attempts eng t i w)) = SQLITE_BUSY) \<longrightarrow>
        commit eng t w = None \<and> destroy eng t w = None)
   \<and> (\<forall>e t' w''. destroy eng t w \<noteq> Some (Inl e, t', w''))"
proof (intro conjI impI allI)
  assume a: "(\<forall>i<k. fst (Transaction_exec eng t ''COMMIT;'' (commit_attempts eng t i w)) = SQLITE_BUSY)
     \<and> Transaction_exec eng t ''COMMIT;'' (commit_attempts eng t k w) = (res, w')
     \<and> res \<noteq> SQLITE_BUSY"
  then have b1: "\<forall>i<k. fst (Transaction_exec eng t ''COMMIT;'' (commit_attempts eng t i w)) = SQLITE_BUSY"
    and b2: "Transaction_exec eng t ''COMMIT;'' (commit_attempts eng t k w) = (res, w')"
    and b3: "res \<noteq> SQLITE_BUSY"
    by simp_all
  have tc: "\<And>exc. try_commit eng exc t w =
           Some (if res = SQLITE_OK then (Inr True, t\<lparr>the_done := True\<rparr>, w')
                 else if exc then (Inl (Error res ''commit failed''), t, w')
                 else (Inr False, t, w'))"
    using b1 b2 b3 by (rule commit_after_busy)
  show "commit eng t w =
         Some (if res = SQLITE_OK then (Inr (), t\<lparr>the_done := True\<rparr>, w')
               else (Inl (Error res ''commit failed''), t, w'))"
    by (simp add: commit_def tc discard_def)
  show "destroy eng t w =
         Some (Inr (), if res = SQLITE_OK then t\<lparr>the_done := True\<rparr> else t, w')"
    by (simp add: destroy_def tc discard_def)
next
  assume a: "\<forall>i. fst (Transaction_exec eng t ''COMMIT;'' (commit_attempts eng t i w)) = SQLITE_BUSY"
  show "commit eng t w = None"
    by (simp add: commit_def try_commit_diverges [OF a])
  show "destroy eng t w = None"
    by (simp add: destroy_def try_commit_diverges [OF a])
next
  fix e t' w''
  show "destroy eng t w \<noteq> Some (Inl e, t', w'')" by (rule destroy_no_throw)
qed

lemma toy_commit_exec:
  "Transaction_exec toy_engine toy_transaction ''COMMIT;'' w =
     (case toy_replies w of
        [] \<Rightarrow> (SQLITE_OK, w\<lparr>toy_log := toy_log w @ [(Some 0, ''COMMIT;'')]\<rparr>)
      | r # rs \<Rightarrow> (if r = SQLITE_DONE then SQLITE_OK else r,
                   w\<lparr>toy_replies := rs, toy_log := toy_log w @ [(Some 0, ''COMMIT;'')]\<rparr>))"
  by (simp add: Transaction_exec_def toy_defs sqlite_codes split: list.splits)

lemma busy_commit_exec:
  "fst (Transaction_exec busy_engine toy_transaction ''COMMIT;'' w) = SQLITE_BUSY"
  by (simp add: Transaction_exec_def busy_engine_def toy_defs sqlite_codes)

theorem commit_retries_destroy_swallows_witness:
  "commit toy_engine toy_transaction
       (toy_empty\<lparr>toy_replies := [SQLITE_BUSY, SQLITE_BUSY, SQLITE_ERROR]\<rparr>)
     = Some (Inl (Error SQLITE_ERROR ''commit failed''), toy_transaction,
             toy_empty\<lparr>toy_log := [(Some 0, ''COMMIT;''), (Some 0, ''COMMIT;''), (Some 0, ''COMMIT;'')]\<rparr>)
   \<and> destroy toy_engine toy_transaction
       (toy_empty\<lparr>toy_replies := [SQLITE_BUSY, SQLITE_BUSY, SQLITE_ERROR]\<rparr>)
     = Some (Inr (), toy_transaction,
             toy_empty\<lparr>toy_log := [(Some 0, ''COMMIT;''), (Some 0, ''COMMIT;''), (Some 0, ''COMMIT;'')]\<rparr>)
   \<and> commit busy_engine toy_transaction toy_empty = None
   \<and> destroy busy_engine toy_transaction toy_empty = None"
proof -
  let ?w = "toy_empty\<lparr>toy_replies := [SQLITE_BUSY, SQLITE_BUSY, SQLITE_ERROR]\<rparr>"
  let ?w' = "toy_empty\<lparr>toy_log := [(Some 0, ''COMMIT;''), (Some 0, ''COMMIT;''), (Some 0, ''COMMIT;'')]\<rparr>"
  have a1: "commit_attempts toy_engine toy_transaction (Suc 0) ?w
              = toy_empty\<lparr>toy_replies := [SQLITE_BUSY, SQLITE_ERROR], toy_log := [(Some 0, ''COMMIT;'')]\<rparr>"
    by (simp add: commit_attempts_def toy_commit_exec toy_empty_def)
  have a2: "commit_attempts toy_engine toy_transaction (Suc (Suc 0)) ?w
              = toy_empty\<lparr>toy_replies := [SQLITE_ERROR],
                           toy_log := [(Some 0, ''COMMIT;''), (Some 0, ''COMMIT;'')]\<rparr>"
    by (simp add: commit_attempts_def toy_commit_exec toy_empty_def)
  have busy: "\<forall>i<2. fst (Transaction_exec toy_engine toy_transaction ''COMMIT;''
                 (commit_attempts toy_engine toy_transaction i ?w)) = SQLITE_BUSY"
  proof (intro allI impI)
    fix i :: nat assume "i < 2"
    then have "i = 0 \<or> i = Suc 0" by auto
    then show "fst (Transaction_exec toy_engine toy_transaction ''COMMIT;''
                 (commit_attempts toy_engine toy_transaction i ?w)) = SQLITE_BUSY"
      using a1 by (auto simp add: commit_attempts_0 toy_commit_exec toy_empty_def sqlite_codes)
  qed
  have last: "Transaction_exec toy_engine toy_transaction ''COMMIT;''
                 (commit_attempts toy_engine toy_transaction 2 ?w) = (SQLITE_ERROR, ?w')"
    using a2 by (simp add: numeral_2_eq_2 toy_commit_exec toy_empty_def sqlite_codes)
  have h: "(\<forall>i<2. fst (Transaction_exec toy_engine toy_transaction ''COMMIT;''
                 (commit_attempts toy_engine toy_transaction i ?w)) = SQLITE_BUSY)
     \<and> Transaction_exec toy_engine toy_transaction ''COMMIT;''
                 (commit_attempts toy_engine toy_transaction 2 ?w) = (SQLITE_ERROR, ?w')
     \<and> SQLITE_ERROR \<noteq> SQLITE_BUSY"
    using busy last by (simp add: sqlite_codes)
  have forever: "\<forall>i. fst (Transaction_exec busy_engine toy_transaction ''COMMIT;''
                 (commit_attempts busy_engine toy_transaction i toy_empty)) = SQLITE_BUSY"
    by (simp add: busy_commit_exec)
  from commit_retries_destroy_swallows
         [of 2 toy_engine toy_transaction ?w SQLITE_ERROR ?w', THEN conjunct1, THEN mp, OF h]
       commit_retries_destroy_swallows
         [of _ busy_engine toy_transaction toy_empty, THEN conjunct2, THEN conjunct1,
          THEN mp, OF forever]
  show ?thesis by (simp add: sqlite_codes)
qed

lemma commit_success_done:
  assumes "commit eng t0 w0 = Some (Inr (), t, w)"
  shows "the_done t"
proof -
  from assms obtain r where r: "try_commit eng True t0 w0 = Some r" and d: "discard r = (Inr (), t, w)"
    by (auto simp add: commit_def)
  obtain x t1 w1 where parts: "r = (x, t1, w1)" by (cases r)
  from d parts have t1: "t1 = t" and x: "x = Inr True \<or> x = Inr False"
    by (cases x; auto simp add: discard_def)+
  from try_commit_true_or_throw [OF r] parts have "x \<noteq> Inr False" by simp
  with x have "fst r = Inr True" by (simp add: parts)
  with try_commit_success_done [OF r] parts t1 show ?thesis by simp
qed

lemma rollback_success_done:
  "rollback eng t0 w0 = (Inr (), t, w) \<Longrightarrow> the_done t"
  by (auto simp add: rollback_def split: prod.splits if_splits)

text \<open>
  Claim C9: after a successful \<^verbatim>\<open>commit()\<close> or \<^verbatim>\<open>rollback()\<close> the transaction is
  resolved, and its destructor issues \<^verbatim>\<open>COMMIT\<close> all the same: the engine state it
  leaves is the one after a run of \<^verbatim>\<open>exec("COMMIT;")\<close>, and the error the engine
  answers with is swallowed.
\<close>

theorem destroy_after_resolution:
  assumes "commit eng t0 w0 = Some (Inr (), t, w) \<or> rollback eng t0 w0 = (Inr (), t, w)"
    and "Transaction_exec eng t ''COMMIT;'' w = (res, w')"
    and "res \<noteq> SQLITE_OK" and "res \<noteq> SQLITE_BUSY"
  shows "the_done t \<and> destroy eng t w = Some (Inr (), t, w')"
proof
  from assms(1) show "the_done t"
  proof
    assume "commit eng t0 w0 = Some (Inr (), t, w)"
    then show ?thesis by (rule commit_success_done)
  next
    assume "rollback eng t0 w0 = (Inr (), t, w)"
    then show ?thesis by (rule rollback_success_done)
  qed
  from assms(2,3,4) show "destroy eng t w = Some (Inr (), t, w')"
    by (simp add: destroy_def try_commit_fail discard_def)
qed

theorem destroy_after_resolution_witness:
  "rollback toy_engine toy_transaction (toy_empty\<lparr>toy_replies := [SQLITE_DONE, SQLITE_ERROR]\<rparr>)
     = (Inr (), \<lparr>the_db = Some 0, the_done = True\<rparr>,
        toy_empty\<lparr>toy_replies := [SQLITE_ERROR], toy_log := [(Some 0, ''ROLLBACK;'')]\<rparr>)
   \<and> destroy toy_engine \<lparr>the_db = Some 0, the_done = True\<rparr>
        (toy_empty\<lparr>toy_replies := [SQLITE_ERROR], toy_log := [(Some 0, ''ROLLBACK;'')]\<rparr>)
     = Some (Inr (), \<lparr>the_db = Some 0, the_done = True\<rparr>,
             toy_empty\<lparr>toy_log := [(Some 0, ''ROLLBACK;''), (Some 0, ''COMMIT;'')]\<rparr>)"
proof -
  let ?u = "toy_empty\<lparr>toy_replies := [SQLITE_DONE, SQLITE_ERROR]\<rparr>"
  let ?t = "\<lparr>the_db = Some 0, the_done = True\<rparr>"
  let ?w = "toy_empty\<lparr>toy_replies := [SQLITE_ERROR], toy_log := [(Some 0, ''ROLLBACK;'')]\<rparr>"
  let ?w' = "toy_empty\<lparr>toy_log := [(Some 0, ''ROLLBACK;''), (Some 0, ''COMMIT;'')]\<rparr>"
  have rb: "rollback toy_engine toy_transaction ?u = (Inr (), ?t, ?w)"
    by (simp add: rollback_def Transaction_exec_def toy_defs)
  then have 1: "commit toy_engine toy_transaction ?u = Some (Inr (), ?t, ?w)
             \<or> rollback toy_engine toy_transaction ?u = (Inr (), ?t, ?w)" ..
  have 2: "Transaction_exec toy_engine ?t ''COMMIT;'' ?w = (SQLITE_ERROR, ?w')"
    by (simp add: Transaction_exec_def toy_defs sqlite_codes)
  have 3: "SQLITE_ERROR \<noteq> SQLITE_OK" and 4: "SQLITE_ERROR \<noteq> SQLITE_BUSY"
    by (simp_all add: sqlite_codes)
  from destroy_after_resolution [OF 1 2 3 4] rb show ?thesis by simp
qed

lemma destroy_moved_from:
  assumes "sqlite3_prepare_v2 eng None ''COMMIT;'' w = ((res, p), w')"
    and "res \<noteq> SQLITE_OK" and "res \<noteq> SQLITE_BUSY"
  shows "destroy eng (t\<lparr>the_db := None\<rparr>) w = Some (Inr (), t\<lparr>the_db := None\<rparr>, w')"
proof -
  from assms have "Transaction_exec eng (t\<lparr>the_db := None\<rparr>) ''COMMIT;'' w = (res, w')"
    by (simp add: Transaction_exec_def)
  with assms(2,3) show ?thesis
    by (simp add: destroy_def try_commit_fail discard_def)
qed

text \<open>
  Claim C3 says that destroying a moved-from transaction performs no engine call. The
  move leaves the source with a null connection, and the destructor, which tests
  nothing, calls \<^verbatim>\<open>sqlite3_prepare_v2\<close> with it: on the test engine the log of these
  calls has grown by one after the destruction. The destination holds the connection
  and the flag of the source.
\<close>

theorem moved_from_destroy_calls_engine:
  "move_construct toy_engine toy_transaction toy_empty
     = Some (Inr (), (\<lparr>the_db = Some 0, the_done = False\<rparr>, \<lparr>the_db = None, the_done = False\<rparr>),
             toy_empty)
   \<and> destroy toy_engine \<lparr>the_db = None, the_done = False\<rparr> toy_empty
     = Some (Inr (), \<lparr>the_db = None, the_done = False\<rparr>,
             toy_empty\<lparr>toy_log := [(None, ''COMMIT;'')]\<rparr>)"
  by (simp add: move_construct_def move_assign_def take_over_def destroy_def try_commit.simps
        Transaction_exec_def discard_def toy_defs sqlite_codes)

section \<open>Statement: iteration\<close>

text \<open>
  Whenever the sequence of \<^verbatim>\<open>step()\<close> calls comes to an end, the range-based loop
  has run its body once more than there are rows: first on the statement as it was
  before any \<^verbatim>\<open>step()\<close>, since \<^verbatim>\<open>begin()\<close> does not advance.
\<close>

lemma for_loop_at_end:
  "for_loop (Suc n) eng (b\<lparr>the_end := True\<rparr>) (end_iterator st) w = Some (Inr (), [], w)"
  by (simp add: iterator_neq_def iterator_eq_def end_iterator_def)

lemma for_range_prepends_view:
  "spec_step_rows n eng st w = Some (r, vs, w') \<Longrightarrow>
   for_range (Suc n) eng st w = Some (r, (st, w) # vs, w')"
proof (induction n arbitrary: w r vs w')
  case 0
  then show ?case by simp
next
  case (Suc n)
  obtain x w1 where s: "step eng st w = (x, w1)" by (cases "step eng st w")
  have neq: "iterator_neq (begin_iterator st) (end_iterator st)"
    by (simp add: iterator_neq_def iterator_eq_def begin_iterator_def)
  show ?case
  proof (cases x)
    case (Inl err)
    with Suc.prems s neq show ?thesis
      by (simp add: for_range_def iterator_incr_def iterator_deref_def begin_iterator_def)
  next
    case (Inr has_row)
    show ?thesis
    proof (cases has_row)
      case False
      with Inr Suc.prems s have res: "r = Inr ()" "vs = []" "w' = w1" by simp_all
      have "for_loop (Suc n) eng ((begin_iterator st)\<lparr>the_end := True\<rparr>) (end_iterator st) w1
              = Some (Inr (), [], w1)"
        by (rule for_loop_at_end)
      with False Inr s neq res show ?thesis
        by (simp add: for_range_def iterator_incr_def iterator_deref_def begin_iterator_def
              visit_def del: for_loop.simps(2)
              add: for_loop.simps(2) [of "Suc n"])
    next
      case True
      with Inr Suc.prems s obtain r1 vs1 w1' where
        rest: "spec_step_rows n eng st w1 = Some (r1, vs1, w1')"
        and res: "r = r1" "vs = (st, w1) # vs1" "w' = w1'"
        by (auto simp add: visit_def)
      from Suc.IH [OF rest] have "for_range (Suc n) eng st w1 = Some (r1, (st, w1) # vs1, w1')" .
      with True Inr s neq res show ?thesis
        by (simp add: for_range_def iterator_incr_def iterator_deref_def begin_iterator_def
              visit_def del: for_loop.simps(2)
              add: for_loop.simps(2) [of "Suc n"])
    qed
  qed
qed

text \<open>
  Claim C1 says that the iteration yields exactly the rows that repeated \<^verbatim>\<open>step()\<close>
  calls yield. On the test engine, for a statement with a single row, the loop body
  runs twice, the first time with no row positioned, where the \<^verbatim>\<open>step()\<close> sequence
  has the one row.
\<close>

theorem for_range_extra_view:
  "for_range 3 toy_engine toy_stmt
       (toy_empty\<lparr>toy_columns := 1, toy_pending := [[CText ''x'']]\<rparr>)
     = Some (Inr (),
         [(toy_stmt, toy_empty\<lparr>toy_columns := 1, toy_pending := [[CText ''x'']]\<rparr>),
          (toy_stmt, toy_empty\<lparr>toy_columns := 1, toy_current := Some [CText ''x'']\<rparr>)],
         toy_empty\<lparr>toy_columns := 1\<rparr>)
   \<and> spec_step_rows 3 toy_engine toy_stmt
       (toy_empty\<lparr>toy_columns := 1, toy_pending := [[CText ''x'']]\<rparr>)
     = Some (Inr (),
         [(toy_stmt, toy_empty\<lparr>toy_columns := 1, toy_current := Some [CText ''x'']\<rparr>)],
         toy_empty\<lparr>toy_columns := 1\<rparr>)"
  by (simp add: numeral_3_eq_3 for_range_def begin_iterator_def end_iterator_def
        iterator_neq_def iterator_eq_def iterator_incr_def iterator_deref_def step_def visit_def
        toy_defs sqlite_codes)

end
